theory Spec2Isabelle
  imports Main "HOL-Library.Word"
begin

section \<open>JavaScript values used by \<open>static/app.js\<close>\<close>

text \<open>
  A JavaScript string is a sequence of UTF-16 code units. Literals of the script are
  ASCII and are written with \<open>lit\<close>.
\<close>

type_synonym jsstring = "16 word list"

definition lit :: "string \<Rightarrow> jsstring" where
  "lit s = map of_char s"

text \<open>
  \<open>String.prototype.trim\<close> removes WhiteSpace and LineTerminator code points from both
  ends: TAB, VT, FF, ZWNBSP, the Unicode space separators (category Zs), LF, CR, LS, PS.
\<close>

definition isWhiteSpace :: "16 word \<Rightarrow> bool" where
  "isWhiteSpace c \<longleftrightarrow>
     c \<in> set [0x0009, 0x000A, 0x000B, 0x000C, 0x000D, 0x0020, 0x00A0, 0x1680,
               0x2028, 0x2029, 0x202F, 0x205F, 0x3000, 0xFEFF]
     \<or> (0x2000 \<le> c \<and> c \<le> 0x200A)"

definition trim :: "jsstring \<Rightarrow> jsstring" where
  "trim s = rev (dropWhile isWhiteSpace (rev (dropWhile isWhiteSpace s)))"

text \<open>
  A number is an IEEE double. The script observes a number in two ways only: through
  ToBoolean (false exactly for \<open>+0\<close>, \<open>-0\<close> and \<open>NaN\<close>) and through ToString; a number is
  represented by these two observations.
\<close>

datatype jsnum = JsNum (num_is_zero_or_nan: bool) (num_to_string: jsstring)

text \<open>
  The values \<open>res.json()\<close> can resolve with, and \<open>undefined\<close>. An object is the list of
  its own properties (keys distinct), looked up with \<open>map_of\<close>.
\<close>

datatype jsval =
    JUndefined
  | JNull
  | JBool bool
  | JNumber jsnum
  | JString jsstring
  | JArray "jsval list"
  | JObject "(jsstring \<times> jsval) list"

datatype error = TypeError | SyntaxError | InvalidStateError

fun ToBoolean :: "jsval \<Rightarrow> bool" where
  "ToBoolean JUndefined = False"
| "ToBoolean JNull = False"
| "ToBoolean (JBool b) = b"
| "ToBoolean (JNumber n) = (\<not> num_is_zero_or_nan n)"
| "ToBoolean (JString s) = (s \<noteq> [])"
| "ToBoolean (JArray _) = True"
| "ToBoolean (JObject _) = True"

text \<open>The operator \<open>a || b\<close>.\<close>

definition logical_or :: "jsval \<Rightarrow> jsval \<Rightarrow> jsval" where
  "logical_or a b = (if ToBoolean a then a else b)"

text \<open>
  The property read \<open>data.answer\<close>. On \<open>undefined\<close> and \<open>null\<close> it throws a TypeError; on
  an object it is the own property or \<open>undefined\<close> (\<open>Object.prototype\<close> has no such
  property); on a boolean, number, string or array it is \<open>undefined\<close>.
\<close>

fun get_answer :: "jsval \<Rightarrow> error + jsval" where
  "get_answer JUndefined = Inl TypeError"
| "get_answer JNull = Inl TypeError"
| "get_answer (JObject props) =
     (case map_of props (lit ''answer'') of None \<Rightarrow> Inr JUndefined | Some v \<Rightarrow> Inr v)"
| "get_answer _ = Inr JUndefined"

text \<open>
  \<open>Array.prototype.join\<close> with the separator \<open>","\<close>, over elements already converted:
  the first conversion that throws ends the join.
\<close>

fun join_comma :: "(error + jsstring) list \<Rightarrow> error + jsstring" where
  "join_comma [] = Inr []"
| "join_comma [x] = x"
| "join_comma (x # y # ys) =
     (case x of
        Inl e \<Rightarrow> Inl e
      | Inr s \<Rightarrow> (case join_comma (y # ys) of
                    Inl e \<Rightarrow> Inl e
                  | Inr t \<Rightarrow> Inr (s @ lit '','' @ t)))"

text \<open>
  ToString. An array is joined, with \<open>undefined\<close> and \<open>null\<close> elements as the empty
  string. A parsed object has no callable property of its own: with an own property
  \<open>toString\<close> the conversion to a primitive finds no method that returns a primitive and
  throws a TypeError, otherwise \<open>Object.prototype.toString\<close> answers.
\<close>

fun ToString :: "jsval \<Rightarrow> error + jsstring" where
  "ToString JUndefined = Inr (lit ''undefined'')"
| "ToString JNull = Inr (lit ''null'')"
| "ToString (JBool b) = Inr (if b then lit ''true'' else lit ''false'')"
| "ToString (JNumber n) = Inr (num_to_string n)"
| "ToString (JString s) = Inr s"
| "ToString (JArray xs) =
     join_comma (map (\<lambda>x. if x = JUndefined \<or> x = JNull then Inr [] else ToString x) xs)"
| "ToString (JObject props) =
     (if map_of props (lit ''toString'') = None then Inr (lit ''[object Object]'')
      else Inl TypeError)"

section \<open>The page, the browser and the script's state\<close>

text \<open>A \<open>div\<close> created by \<open>addMsg\<close>.\<close>

record msg_div =
  className :: jsstring
  textContent :: jsstring

text \<open>
  The argument of \<open>fetch\<close>. The body is the text \<open>JSON.stringify\<close> gives for a value; the
  record holds that value.
\<close>

record request =
  url :: jsstring
  http_method :: jsstring
  headers :: "(jsstring \<times> jsstring) list"
  body_JSON_stringify :: jsval

record utterance =
  utterance_text :: jsstring
  utterance_lang :: jsstring

text \<open>The functions the script registers as listeners, by where they are written.\<close>

datatype handler =
    HandleSend
  | KeydownArrow
  | MousedownArrow
  | MouseupArrow
  | OnresultArrow
  | OnerrorArrow
  | OnendArrow

record recognition_obj =
  recognition_lang :: jsstring
  interimResults :: bool
  maxAlternatives :: nat
  onresult :: "handler option"
  onerror :: "handler option"
  onend :: "handler option"

datatype target = SendBtn | PromptInput | MicBtn

text \<open>
  What the script does to the page and to the browser's engines, in program order: nodes
  appended to \<open>#messages\<close>, the scroll to the bottom, writes to the input field, requests,
  and calls to the speech synthesis and speech recognition engines.
\<close>

datatype effect =
    AppendChild msg_div
  | ScrollToBottom
  | SetInputValue jsstring
  | Fetch nat request
  | SynthCancel
  | SynthSpeak utterance
  | RecognitionStart
  | RecognitionStop

text \<open>The three property tests the script makes on \<open>window\<close>.\<close>

record window =
  speechSynthesis_in_window :: bool
  webkitSpeechRecognition_in_window :: bool
  SpeechRecognition_in_window :: bool

text \<open>
  The hosting page is not among the sources, so the kind of the element \<open>#prompt\<close> is a
  parameter of the page: a single-line text input or a \<open>textarea\<close>. The element does
  not keep every string it is given. A text input strips the code units LF and CR from a
  value written to it; the value of a \<open>textarea\<close> has every pair CR LF and every other CR
  replaced by LF.
\<close>

datatype field_kind = TextInput | TextArea

fun normalize_newlines :: "jsstring \<Rightarrow> jsstring" where
  "normalize_newlines [] = []"
| "normalize_newlines [c] = [if c = 0x000D then 0x000A else c]"
| "normalize_newlines (c # d # cs) =
     (if c = 0x000D \<and> d = 0x000A then 0x000A # normalize_newlines cs
      else (if c = 0x000D then 0x000A else c) # normalize_newlines (d # cs))"

fun value_sanitization :: "field_kind \<Rightarrow> jsstring \<Rightarrow> jsstring" where
  "value_sanitization TextInput v = filter (\<lambda>c. c \<noteq> 0x000A \<and> c \<noteq> 0x000D) v"
| "value_sanitization TextArea v = normalize_newlines v"

text \<open>The elements the script looks up by id, as the hosting page provides them.\<close>

record dom =
  messages :: "msg_div list"
  promptInput_kind :: field_kind
  promptInput_value :: jsstring
  speakChk_checked :: bool
  micBtn_classList :: "jsstring list"
  micBtn_disabled :: bool
  micBtn_title :: jsstring

text \<open>
  The state the script runs in: the page, the module variable \<open>recognition\<close>, whether
  the recognition engine has been started (start was called and no error or end event
  has fired since), the registered listeners, the \<open>handleSend\<close> calls suspended at their
  \<open>await\<close> (by the number of the request they wait for), the effects so far, and the
  exceptions and rejections nothing caught.
\<close>

record state = dom +
  recognition :: "recognition_obj option"
  started :: bool
  listeners :: "(target \<times> jsstring \<times> handler) list"
  awaiting :: "nat list"
  next_fetch :: nat
  log :: "effect list"
  uncaught :: "error list"

text \<open>
  The settlement of \<open>fetch\<close> as the script sees it: the fetch promise rejects (\<open>Inl\<close>), or
  resolves with a response whose \<open>json()\<close> promise rejects (\<open>Inr (Inl e)\<close>) or resolves
  with the parsed body.
\<close>

type_synonym reply = "error + (error + jsval)"

text \<open>The promise of an \<open>async\<close> function when control returns to the caller.\<close>

datatype promise = Resolved | Rejected error | Awaiting nat

text \<open>
  What the browser delivers to the script, one at a time on the single UI thread: an
  event on an element (its type and, for a keyboard event, its \<open>key\<close>), the user editing
  the input field (to a text the field sanitizes) or toggling the checkbox, the events of
  the recognition engine (a result carries \<open>e.results\<close>, the transcripts of the
  alternatives of each result), and the settlement of a request.
\<close>

datatype event =
    DomEvent target jsstring "jsstring option"
  | UserTypes jsstring
  | UserToggles
  | SpeechResult "jsstring list list"
  | SpeechError
  | SpeechEnd
  | FetchSettled nat reply

section \<open>The functions of the script\<close>

text \<open>
  \<open>div.textContent = text\<close>: the attribute is a nullable DOMString, so \<open>null\<close> and
  \<open>undefined\<close> give the empty string and any other value is converted with ToString.
\<close>

definition set_textContent :: "jsval \<Rightarrow> error + jsstring" where
  "set_textContent v = (if v = JUndefined \<or> v = JNull then Inr [] else ToString v)"

text \<open>
  \<open>addMsg(text, who = "user")\<close>, lines 7 to 13. The only statement that can throw is the
  write to \<open>textContent\<close>, before the node is attached.
\<close>

definition addMsg :: "jsval \<Rightarrow> jsstring option \<Rightarrow> state \<Rightarrow> error + state" where
  "addMsg text who_arg s =
     (let who = (case who_arg of None \<Rightarrow> lit ''user'' | Some w \<Rightarrow> w) in
      case set_textContent text of
        Inl e \<Rightarrow> Inl e
      | Inr t \<Rightarrow>
          let node = \<lparr>className = lit ''msg '' @ who, textContent = t\<rparr> in
          Inr (s\<lparr>messages := messages s @ [node],
                 log := log s @ [AppendChild node, ScrollToBottom]\<rparr>))"

text \<open>
  \<open>askServer(question)\<close>, lines 15 to 23, up to its first \<open>await\<close>: the request is issued
  and the function waits for it.
\<close>

definition askServer_request :: "jsstring \<Rightarrow> request" where
  "askServer_request question =
     \<lparr>url = lit ''/ask'',
      http_method = lit ''POST'',
      headers = [(lit ''Content-Type'', lit ''application/json'')],
      body_JSON_stringify = JObject [(lit ''question'', JString question)]\<rparr>"

definition askServer :: "jsstring \<Rightarrow> state \<Rightarrow> nat \<times> state" where
  "askServer question s =
     (next_fetch s,
      s\<lparr>next_fetch := Suc (next_fetch s),
        log := log s @ [Fetch (next_fetch s) (askServer_request question)]\<rparr>)"

definition fallback :: jsstring where
  "fallback = lit ''Sorry, I couldn't understand.''"

text \<open>\<open>askServer\<close> from the settlement of the request to its \<open>return\<close>, lines 21 to 22.\<close>

definition askServer_resumed :: "reply \<Rightarrow> error + jsval" where
  "askServer_resumed r =
     (case r of
        Inl e \<Rightarrow> Inl e
      | Inr res \<Rightarrow>
          (case res of
             Inl e \<Rightarrow> Inl e
           | Inr data \<Rightarrow>
               (case get_answer data of
                  Inl e \<Rightarrow> Inl e
                | Inr a \<Rightarrow> Inr (logical_or a (JString fallback)))))"

text \<open>
  \<open>promptInput.value = v\<close>: the field holds the sanitized string, which is what a later
  read of \<open>promptInput.value\<close> returns. The effect recorded is the write with its argument.
\<close>

definition set_promptInput_value :: "jsstring \<Rightarrow> state \<Rightarrow> state" where
  "set_promptInput_value v s =
     s\<lparr>promptInput_value := value_sanitization (promptInput_kind s) v,
       log := log s @ [SetInputValue v]\<rparr>"

text \<open>
  \<open>handleSend()\<close>, lines 25 to 31, up to the \<open>await\<close>: it returns at once when the trimmed
  input is empty, and otherwise suspends on the request of \<open>askServer\<close>.
\<close>

definition handleSend :: "state \<Rightarrow> promise \<times> state" where
  "handleSend s =
     (let q = trim (promptInput_value s) in
      if q = [] then (Resolved, s)
      else
        (case addMsg (JString q) (Some (lit ''user'')) s of
           Inl e \<Rightarrow> (Rejected e, s)
         | Inr s1 \<Rightarrow>
             let s2 = set_promptInput_value [] s1;
                 (i, s3) = askServer q s2
             in (Awaiting i, s3\<lparr>awaiting := awaiting s3 @ [i]\<rparr>)))"

text \<open>\<open>new SpeechSynthesisUtterance(ans)\<close>: the argument is converted to a DOMString.\<close>

definition new_SpeechSynthesisUtterance :: "jsval \<Rightarrow> error + utterance" where
  "new_SpeechSynthesisUtterance v =
     (case ToString v of
        Inl e \<Rightarrow> Inl e
      | Inr t \<Rightarrow> Inr \<lparr>utterance_text = t, utterance_lang = []\<rparr>)"

text \<open>
  \<open>handleSend()\<close> from the settlement of the request to its end, lines 30 to 37, in the
  state the page has by then.
\<close>

definition handleSend_resumed :: "window \<Rightarrow> reply \<Rightarrow> state \<Rightarrow> promise \<times> state" where
  "handleSend_resumed w r s =
     (case askServer_resumed r of
        Inl e \<Rightarrow> (Rejected e, s)
      | Inr ans \<Rightarrow>
          (case addMsg ans (Some (lit ''bot'')) s of
             Inl e \<Rightarrow> (Rejected e, s)
           | Inr s1 \<Rightarrow>
               if speakChk_checked s1 \<and> speechSynthesis_in_window w then
                 (case new_SpeechSynthesisUtterance ans of
                    Inl e \<Rightarrow> (Rejected e, s1)
                  | Inr u \<Rightarrow>
                      let u' = u\<lparr>utterance_lang := lit ''en-IN''\<rparr> in
                      (Resolved, s1\<lparr>log := log s1 @ [SynthCancel, SynthSpeak u']\<rparr>))
               else (Resolved, s1)))"

text \<open>
  One invocation of \<open>handleSend\<close> run to its end, the request settling before any other
  event is delivered.
\<close>

definition handleSend_completed :: "window \<Rightarrow> reply \<Rightarrow> state \<Rightarrow> promise \<times> state" where
  "handleSend_completed w r s =
     (case handleSend s of
        (Awaiting i, s1) \<Rightarrow>
          handleSend_resumed w r (s1\<lparr>awaiting := removeAll i (awaiting s1)\<rparr>)
      | (p, s1) \<Rightarrow> (p, s1))"

text \<open>
  A caller that drops the promise of \<open>handleSend\<close>: a rejection is reported as unhandled,
  nothing else happens.
\<close>

definition settle :: "promise \<times> state \<Rightarrow> state" where
  "settle ps =
     (case ps of
        (Rejected e, s) \<Rightarrow> s\<lparr>uncaught := uncaught s @ [e]\<rparr>
      | (_, s) \<Rightarrow> s)"

definition classList_add :: "jsstring \<Rightarrow> jsstring list \<Rightarrow> jsstring list" where
  "classList_add tok cl = (if tok \<in> set cl then cl else cl @ [tok])"

definition classList_remove :: "jsstring \<Rightarrow> jsstring list \<Rightarrow> jsstring list" where
  "classList_remove tok cl = removeAll tok cl"

text \<open>
  \<open>recognition.start()\<close> and \<open>recognition.stop()\<close>. Reading a method of \<open>null\<close> throws a
  TypeError; \<open>start\<close> on an engine already started throws an InvalidStateError; \<open>stop\<close>
  on a stopped engine is ignored by the engine.
\<close>

definition recognition_start :: "state \<Rightarrow> error + state" where
  "recognition_start s =
     (case recognition s of
        None \<Rightarrow> Inl TypeError
      | Some r \<Rightarrow>
          if started s then Inl InvalidStateError
          else Inr (s\<lparr>started := True, log := log s @ [RecognitionStart]\<rparr>))"

definition recognition_stop :: "state \<Rightarrow> error + state" where
  "recognition_stop s =
     (case recognition s of
        None \<Rightarrow> Inl TypeError
      | Some r \<Rightarrow> Inr (s\<lparr>log := log s @ [RecognitionStop]\<rparr>))"

fun event_key :: "event \<Rightarrow> jsstring option" where
  "event_key (DomEvent _ _ k) = k"
| "event_key _ = None"

fun event_results :: "event \<Rightarrow> jsstring list list" where
  "event_results (SpeechResult rs) = rs"
| "event_results _ = []"

text \<open>
  The bodies of the listeners, lines 40 to 43 and 54 to 71, called with the event. In
  \<open>onresult\<close> the read \<open>e.results[0][0].transcript\<close> throws a TypeError when there is no
  first result or no first alternative.
\<close>

fun call :: "handler \<Rightarrow> event \<Rightarrow> state \<Rightarrow> state" where
  "call HandleSend e s = settle (handleSend s)"
| "call KeydownArrow e s =
     (if event_key e = Some (lit ''Enter'') then settle (handleSend s) else s)"
| "call MousedownArrow e s =
     (let s1 = s\<lparr>micBtn_classList := classList_add (lit ''rec'') (micBtn_classList s)\<rparr> in
      case recognition_start s1 of
        Inl err \<Rightarrow> s1\<lparr>uncaught := uncaught s1 @ [err]\<rparr>
      | Inr s2 \<Rightarrow> s2)"
| "call MouseupArrow e s =
     (case recognition_stop s of
        Inl err \<Rightarrow> s\<lparr>uncaught := uncaught s @ [err]\<rparr>
      | Inr s1 \<Rightarrow> s1)"
| "call OnresultArrow e s =
     (case event_results e of
        (t # _) # _ \<Rightarrow> settle (handleSend (set_promptInput_value t s))
      | _ \<Rightarrow> s\<lparr>uncaught := uncaught s @ [TypeError]\<rparr>)"
| "call OnerrorArrow e s =
     s\<lparr>micBtn_classList := classList_remove (lit ''rec'') (micBtn_classList s)\<rparr>"
| "call OnendArrow e s =
     s\<lparr>micBtn_classList := classList_remove (lit ''rec'') (micBtn_classList s)\<rparr>"

definition addEventListener :: "target \<Rightarrow> jsstring \<Rightarrow> handler \<Rightarrow> state \<Rightarrow> state" where
  "addEventListener tgt ty h s = s\<lparr>listeners := listeners s @ [(tgt, ty, h)]\<rparr>"

text \<open>The listeners of an element for an event type, in the order they were added.\<close>

definition listeners_for :: "target \<Rightarrow> jsstring \<Rightarrow> state \<Rightarrow> handler list" where
  "listeners_for tgt ty s =
     map (\<lambda>(t, y, h). h) (filter (\<lambda>(t, y, h). t = tgt \<and> y = ty) (listeners s))"

text \<open>
  The top level of the script, lines 1 to 76, run once when the page loads. Where either
  recognition constructor is a property of \<open>window\<close>, the engine is created, configured
  and wired to the microphone button; otherwise the button is disabled and labelled.
\<close>

definition main :: "window \<Rightarrow> dom \<Rightarrow> state" where
  "main w p =
     (let s0 = \<lparr>messages = messages p,
                promptInput_kind = promptInput_kind p,
                promptInput_value = promptInput_value p,
                speakChk_checked = speakChk_checked p,
                micBtn_classList = micBtn_classList p,
                micBtn_disabled = micBtn_disabled p,
                micBtn_title = micBtn_title p,
                recognition = None,
                started = False,
                listeners = [],
                awaiting = [],
                next_fetch = 0,
                log = [],
                uncaught = []\<rparr>;
          s1 = addEventListener SendBtn (lit ''click'') HandleSend s0;
          s2 = addEventListener PromptInput (lit ''keydown'') KeydownArrow s1
      in
      if webkitSpeechRecognition_in_window w \<or> SpeechRecognition_in_window w then
        (let s3 = s2\<lparr>recognition :=
                        Some \<lparr>recognition_lang = lit ''en-IN'',
                              interimResults = False,
                              maxAlternatives = 1,
                              onresult = None,
                              onerror = None,
                              onend = None\<rparr>\<rparr>;
             s4 = addEventListener MicBtn (lit ''mousedown'') MousedownArrow s3;
             s5 = addEventListener MicBtn (lit ''mouseup'') MouseupArrow s4
         in s5\<lparr>recognition :=
                 map_option (\<lambda>r. r\<lparr>onresult := Some OnresultArrow,
                                     onerror := Some OnerrorArrow,
                                     onend := Some OnendArrow\<rparr>) (recognition s5)\<rparr>)
      else s2\<lparr>micBtn_disabled := True,
              micBtn_title := lit ''Voice input not supported in this browser''\<rparr>)"

text \<open>
  The event loop: one event, handled to the end before the next. An event on an element
  runs that element's listeners for the type; an engine event runs the handler stored
  on the recognition object, after the engine has left the started state on error and
  end; a settled request resumes the \<open>handleSend\<close> call that waits for it.
\<close>

fun step :: "window \<Rightarrow> state \<Rightarrow> event \<Rightarrow> state" where
  "step w s (DomEvent tgt ty k) =
     foldl (\<lambda>s' h. call h (DomEvent tgt ty k) s') s (listeners_for tgt ty s)"
| "step w s (UserTypes v) =
     s\<lparr>promptInput_value := value_sanitization (promptInput_kind s) v\<rparr>"
| "step w s UserToggles = s\<lparr>speakChk_checked := \<not> speakChk_checked s\<rparr>"
| "step w s (SpeechResult rs) =
     (case recognition s of
        None \<Rightarrow> s
      | Some r \<Rightarrow>
          (case onresult r of None \<Rightarrow> s | Some h \<Rightarrow> call h (SpeechResult rs) s))"
| "step w s SpeechError =
     (case recognition s of
        None \<Rightarrow> s
      | Some r \<Rightarrow>
          (let s1 = s\<lparr>started := False\<rparr> in
           case onerror r of None \<Rightarrow> s1 | Some h \<Rightarrow> call h SpeechError s1))"
| "step w s SpeechEnd =
     (case recognition s of
        None \<Rightarrow> s
      | Some r \<Rightarrow>
          (let s1 = s\<lparr>started := False\<rparr> in
           case onend r of None \<Rightarrow> s1 | Some h \<Rightarrow> call h SpeechEnd s1))"
| "step w s (FetchSettled i r) =
     (if i \<in> set (awaiting s)
      then settle (handleSend_resumed w r (s\<lparr>awaiting := removeAll i (awaiting s)\<rparr>))
      else s)"

definition run :: "window \<Rightarrow> state \<Rightarrow> event list \<Rightarrow> state" where
  "run w s es = foldl (step w) s es"

section \<open>A scenario for the examples\<close>

text \<open>
  A browser with both speech engines, and a page with an empty transcript, the question
  \<open>Hi\<close> typed into the field and the speech-output box checked; the service answers
  \<open>{"answer": "Hello"}\<close>.
\<close>

definition example_window :: window where
  "example_window =
     \<lparr>speechSynthesis_in_window = True,
      webkitSpeechRecognition_in_window = True,
      SpeechRecognition_in_window = False\<rparr>"

definition example_page :: dom where
  "example_page =
     \<lparr>messages = [],
      promptInput_kind = TextInput,
      promptInput_value = lit ''Hi'',
      speakChk_checked = True,
      micBtn_classList = [],
      micBtn_disabled = False,
      micBtn_title = []\<rparr>"

definition example_reply :: reply where
  "example_reply = Inr (Inr (JObject [(lit ''answer'', JString (lit ''Hello''))]))"

text \<open>In a list of effects, an occurrence of \<open>a\<close> comes before an occurrence of \<open>b\<close>.\<close>

fun happens_before :: "'a \<Rightarrow> 'a \<Rightarrow> 'a list \<Rightarrow> bool" where
  "happens_before a b [] = False"
| "happens_before a b (x # xs) = ((x = a \<and> b \<in> set xs) \<or> happens_before a b xs)"

text \<open>
  The same page with only white space in the field (a space, an ideographic space and a
  line feed), and a browser without speech recognition.
\<close>

definition blank_page :: dom where
  "blank_page = example_page\<lparr>promptInput_value := lit '' '' @ [0x3000, 0x000A]\<rparr>"

text \<open>
  A page whose field is a \<open>textarea\<close> holding the question \<open>Hi there\<close> padded, in front
  and behind, with every white space code unit a \<open>textarea\<close> can hold.
\<close>

definition padded_page :: dom where
  "padded_page =
     example_page\<lparr>promptInput_kind := TextArea,
       promptInput_value :=
         [0x0009, 0x000A, 0x000B, 0x000C, 0x0020, 0x00A0, 0x1680, 0x2000, 0x2001, 0x2002,
          0x2003, 0x2004, 0x2005] @ lit ''Hi there'' @
         [0x2006, 0x2007, 0x2008, 0x2009, 0x200A, 0x2028, 0x2029, 0x202F, 0x205F, 0x3000,
          0xFEFF]\<rparr>"

definition old_browser :: window where
  "old_browser =
     \<lparr>speechSynthesis_in_window = True,
      webkitSpeechRecognition_in_window = False,
      SpeechRecognition_in_window = False\<rparr>"

section \<open>Observations on the effects\<close>

text \<open>
  The calls to the recognition engine and the requests among the effects; the question a
  request carries in its body; and the property that every request carries a question
  that is not empty and neither begins nor ends with a white space code unit.
\<close>

fun is_recognition_call :: "effect \<Rightarrow> bool" where
  "is_recognition_call RecognitionStart = True"
| "is_recognition_call RecognitionStop = True"
| "is_recognition_call _ = False"

fun is_fetch :: "effect \<Rightarrow> bool" where
  "is_fetch (Fetch _ _) = True"
| "is_fetch _ = False"

definition question_sent :: "request \<Rightarrow> jsstring option" where
  "question_sent r =
     (case body_JSON_stringify r of
        JObject [(k, JString q)] \<Rightarrow> if k = lit ''question'' then Some q else None
      | _ \<Rightarrow> None)"

fun trimmed_nonempty_question :: "effect \<Rightarrow> bool" where
  "trimmed_nonempty_question (Fetch _ r) =
     (case question_sent r of
        None \<Rightarrow> False
      | Some q \<Rightarrow> q \<noteq> [] \<and> \<not> isWhiteSpace (hd q) \<and> \<not> isWhiteSpace (last q))"
| "trimmed_nonempty_question _ = True"

section \<open>Trimming\<close>

lemma last_dropWhile_nonempty:
  "dropWhile P xs \<noteq> [] \<Longrightarrow> last (dropWhile P xs) = last xs"
  by (induction xs) (auto split: if_splits)

lemma trim_not_ws_ends:
  assumes "trim s \<noteq> []"
  shows "\<not> isWhiteSpace (hd (trim s)) \<and> \<not> isWhiteSpace (last (trim s))"
proof -
  let ?a = "dropWhile isWhiteSpace s"
  let ?b = "dropWhile isWhiteSpace (rev ?a)"
  from assms have b: "?b \<noteq> []" by (simp add: trim_def)
  have a: "?a \<noteq> []"
  proof
    assume h: "?a = []"
    have "?b = []" unfolding h by simp
    with b show False by contradiction
  qed
  have hb: "\<not> isWhiteSpace (hd ?b)" using b by (rule hd_dropWhile)
  have ha: "\<not> isWhiteSpace (hd ?a)" using a by (rule hd_dropWhile)
  have "last (rev ?b) = hd ?b" using b by (simp add: last_rev)
  moreover have "hd (rev ?b) = last ?b" using b by (simp add: hd_rev)
  moreover have "last ?b = last (rev ?a)" using b by (rule last_dropWhile_nonempty) 
  moreover have "last (rev ?a) = hd ?a" using a by (simp add: last_rev)
  ultimately show ?thesis using ha hb by (simp add: trim_def)
qed

lemma trim_fixed:
  assumes "s \<noteq> []" "\<not> isWhiteSpace (hd s)" "\<not> isWhiteSpace (last s)"
  shows "trim s = s"
proof -
  have 1: "dropWhile isWhiteSpace s = s" using assms by (cases s) auto
  have 2: "dropWhile isWhiteSpace (rev s) = rev s" using assms by (cases "rev s") (auto simp: hd_rev)
  show ?thesis by (simp add: trim_def 1 2)
qed

lemma trim_idem: "trim (trim s) = trim s"
proof (cases "trim s = []")
  case True
  then have "trim (trim s) = trim []" by simp
  also have "\<dots> = []" by (simp add: trim_def)
  finally show ?thesis using True by simp
next
  case False
  then show ?thesis using trim_not_ws_ends [OF False] by (intro trim_fixed) auto
qed

lemma trim_empty_iff:
  "trim s = [] \<longleftrightarrow> filter (\<lambda>c. \<not> isWhiteSpace c) s = []"
proof
  assume "trim s = []"
  then have "dropWhile isWhiteSpace (rev (dropWhile isWhiteSpace s)) = []"
    by (simp add: trim_def)
  then have "\<forall>c \<in> set (dropWhile isWhiteSpace s). isWhiteSpace c"
    by (simp add: dropWhile_eq_Nil_conv)
  then have "dropWhile isWhiteSpace s = []"
    using hd_dropWhile [of isWhiteSpace s] hd_in_set by blast
  then show "filter (\<lambda>c. \<not> isWhiteSpace c) s = []"
    by (simp add: dropWhile_eq_Nil_conv filter_empty_conv)
next
  assume "filter (\<lambda>c. \<not> isWhiteSpace c) s = []"
  then have "\<forall>c \<in> set s. isWhiteSpace c"
    by (simp add: filter_empty_conv)
  then have d: "dropWhile isWhiteSpace s = []"
    by (simp add: dropWhile_eq_Nil_conv)
  show "trim s = []"
    unfolding trim_def d by simp
qed

section \<open>The input field\<close>

lemma value_sanitization_Nil: "value_sanitization k [] = []"
  by (cases k) simp_all

lemma isWhiteSpace_newlines: "isWhiteSpace 0x000A" "isWhiteSpace 0x000D"
  by (simp_all add: isWhiteSpace_def)

lemma normalize_newlines_keeps_other:
  "filter (\<lambda>c. \<not> isWhiteSpace c) (normalize_newlines v) =
   filter (\<lambda>c. \<not> isWhiteSpace c) v"
  by (induction v rule: normalize_newlines.induct) (auto simp: isWhiteSpace_newlines)

lemma value_sanitization_keeps_other:
  "filter (\<lambda>c. \<not> isWhiteSpace c) (value_sanitization k v) =
   filter (\<lambda>c. \<not> isWhiteSpace c) v"
proof (cases k)
  case TextInput
  have "\<And>c. (c \<noteq> 0x000A \<and> c \<noteq> 0x000D) \<or> isWhiteSpace c"
    using isWhiteSpace_newlines by auto
  then have "filter (\<lambda>c. \<not> isWhiteSpace c) (filter (\<lambda>c. c \<noteq> 0x000A \<and> c \<noteq> 0x000D) v) =
             filter (\<lambda>c. \<not> isWhiteSpace c) v"
    by (induction v) auto
  with TextInput show ?thesis by simp
next
  case TextArea
  then show ?thesis by (simp add: normalize_newlines_keeps_other)
qed

lemma trim_value_sanitization_empty:
  "trim (value_sanitization k v) = [] \<longleftrightarrow> trim v = []"
  by (simp add: trim_empty_iff value_sanitization_keeps_other)

lemma normalize_newlines_no_CR:
  "0x000D \<notin> set v \<Longrightarrow> normalize_newlines v = v"
  by (induction v rule: normalize_newlines.induct) auto

lemma value_sanitization_single_line:
  "0x000A \<notin> set v \<Longrightarrow> 0x000D \<notin> set v \<Longrightarrow> value_sanitization k v = v"
  by (cases k) (auto simp: normalize_newlines_no_CR filter_id_conv)

section \<open>What one call of the functions does\<close>

lemma lit_msg_user: "lit ''msg '' @ lit ''user'' = lit ''msg user''"
  by (simp add: lit_def)

lemma lit_msg_bot: "lit ''msg '' @ lit ''bot'' = lit ''msg bot''"
  by (simp add: lit_def)

lemma addMsg_string:
  "addMsg (JString t) (Some who) s =
     Inr (s\<lparr>messages := messages s @ [\<lparr>className = lit ''msg '' @ who, textContent = t\<rparr>],
            log := log s @ [AppendChild \<lparr>className = lit ''msg '' @ who, textContent = t\<rparr>,
                            ScrollToBottom]\<rparr>)"
  by (simp add: addMsg_def set_textContent_def Let_def)

lemma handleSend_blank:
  "trim (promptInput_value s) = [] \<Longrightarrow> handleSend s = (Resolved, s)"
  by (simp add: handleSend_def)

lemma handleSend_proceeds:
  assumes "trim (promptInput_value s) \<noteq> []"
  shows "handleSend s =
     (Awaiting (next_fetch s),
      s\<lparr>messages := messages s @
           [\<lparr>className = lit ''msg user'', textContent = trim (promptInput_value s)\<rparr>],
        promptInput_value := [],
        awaiting := awaiting s @ [next_fetch s],
        next_fetch := Suc (next_fetch s),
        log := log s @
           [AppendChild \<lparr>className = lit ''msg user'',
                         textContent = trim (promptInput_value s)\<rparr>,
            ScrollToBottom,
            SetInputValue [],
            Fetch (next_fetch s) (askServer_request (trim (promptInput_value s)))]\<rparr>)"
  using assms
  by (simp add: handleSend_def addMsg_string lit_msg_user set_promptInput_value_def
      value_sanitization_Nil askServer_def Let_def)

lemma fallback_nonempty: "fallback \<noteq> []"
  by (simp add: fallback_def lit_def)

lemma askServer_resumed_truthy:
  "askServer_resumed r = Inr ans \<Longrightarrow> ToBoolean ans"
  by (auto simp: askServer_resumed_def logical_or_def fallback_nonempty
      split: sum.splits if_splits)

lemma truthy_textContent:
  "ToBoolean v \<Longrightarrow> set_textContent v = ToString v"
  by (cases v) (simp_all add: set_textContent_def)

lemma addMsg_truthy:
  assumes "ToBoolean v" and "ToString v = Inr t"
  shows "addMsg v (Some who) s =
     Inr (s\<lparr>messages := messages s @ [\<lparr>className = lit ''msg '' @ who, textContent = t\<rparr>],
            log := log s @ [AppendChild \<lparr>className = lit ''msg '' @ who, textContent = t\<rparr>,
                            ScrollToBottom]\<rparr>)"
  using assms by (simp add: addMsg_def truthy_textContent Let_def)

lemma handleSend_resumed_answer:
  assumes "askServer_resumed r = Inr ans" and "ToString ans = Inr a"
  shows "handleSend_resumed w r s =
     (Resolved,
      s\<lparr>messages := messages s @ [\<lparr>className = lit ''msg bot'', textContent = a\<rparr>],
        log := log s @
          [AppendChild \<lparr>className = lit ''msg bot'', textContent = a\<rparr>, ScrollToBottom] @
          (if speakChk_checked s \<and> speechSynthesis_in_window w
           then [SynthCancel,
                 SynthSpeak \<lparr>utterance_text = a, utterance_lang = lit ''en-IN''\<rparr>]
           else [])\<rparr>)"
  using assms askServer_resumed_truthy [OF assms(1)]
  by (simp add: handleSend_resumed_def addMsg_truthy lit_msg_bot
      new_SpeechSynthesisUtterance_def)

lemma handleSend_resumed_rejected:
  "askServer_resumed r = Inl e \<Longrightarrow> handleSend_resumed w r s = (Rejected e, s)"
  by (simp add: handleSend_resumed_def)

lemma example_trim: "trim (promptInput_value (main example_window example_page)) = lit ''Hi''"
  by (simp add: main_def example_window_def example_page_def addEventListener_def
      trim_def lit_def isWhiteSpace_def Let_def)

lemma example_messages: "messages (main example_window example_page) = []"
  by (simp add: main_def example_window_def example_page_def addEventListener_def Let_def)

lemma example_log: "log (main example_window example_page) = []"
  by (simp add: main_def example_window_def example_page_def addEventListener_def Let_def)

lemma example_next_fetch: "next_fetch (main example_window example_page) = 0"
  by (simp add: main_def example_window_def example_page_def addEventListener_def Let_def)

lemma example_checked: "speakChk_checked (main example_window example_page)"
  by (simp add: main_def example_window_def example_page_def addEventListener_def Let_def)

lemma example_answer: "askServer_resumed example_reply = Inr (JString (lit ''Hello''))"
  by (simp add: askServer_resumed_def example_reply_def logical_or_def lit_def)

lemma lit_Hi_nonempty: "lit ''Hi'' \<noteq> []"
  by (simp add: lit_def)

lemma handleSend_completed_proceeds:
  assumes "trim (promptInput_value s) \<noteq> []"
  shows "handleSend_completed w r s =
     handleSend_resumed w r
       (s\<lparr>messages := messages s @
           [\<lparr>className = lit ''msg user'', textContent = trim (promptInput_value s)\<rparr>],
         promptInput_value := [],
         next_fetch := Suc (next_fetch s),
         log := log s @
           [AppendChild \<lparr>className = lit ''msg user'',
                         textContent = trim (promptInput_value s)\<rparr>,
            ScrollToBottom,
            SetInputValue [],
            Fetch (next_fetch s) (askServer_request (trim (promptInput_value s)))],
         awaiting := removeAll (next_fetch s) (awaiting s)\<rparr>)"
  by (simp add: handleSend_completed_def handleSend_proceeds [OF assms])

text \<open>
  C1. When the trimmed input is not empty and the service call succeeds with an answer
  that renders as the text \<open>a\<close>, one invocation of \<open>handleSend\<close> resolves and appends to
  the transcript exactly the user's message followed by the bot's message; the first is
  appended before the request settles and the second when it settles, in whatever state
  the page has by then. For the question \<open>Hi\<close> and the response \<open>{"answer": "Hello"}\<close>
  the transcript is \<open>(Hi, user)\<close>, \<open>(Hello, bot)\<close>.
\<close>

theorem handleSend_user_then_bot:
  assumes "trim (promptInput_value s) \<noteq> []"
    and "askServer_resumed r = Inr ans"
    and "ToString ans = Inr a"
  shows "fst (handleSend_completed w r s) = Resolved \<and>
         messages (snd (handleSend_completed w r s)) =
           messages s @
           [\<lparr>className = lit ''msg user'', textContent = trim (promptInput_value s)\<rparr>,
            \<lparr>className = lit ''msg bot'', textContent = a\<rparr>] \<and>
         messages (snd (handleSend s)) =
           messages s @
           [\<lparr>className = lit ''msg user'', textContent = trim (promptInput_value s)\<rparr>] \<and>
         messages (snd (handleSend_resumed w r s')) =
           messages s' @ [\<lparr>className = lit ''msg bot'', textContent = a\<rparr>]"
  by (simp add: handleSend_completed_proceeds [OF assms(1)]
      handleSend_resumed_answer [OF assms(2,3)] handleSend_proceeds [OF assms(1)])

theorem handleSend_user_then_bot_witness:
  "trim (promptInput_value (main example_window example_page)) \<noteq> [] \<and>
   askServer_resumed example_reply = Inr (JString (lit ''Hello'')) \<and>
   ToString (JString (lit ''Hello'')) = Inr (lit ''Hello'') \<and>
   messages (snd (handleSend_completed example_window example_reply
                    (main example_window example_page))) =
     [\<lparr>className = lit ''msg user'', textContent = lit ''Hi''\<rparr>,
      \<lparr>className = lit ''msg bot'', textContent = lit ''Hello''\<rparr>]"
proof -
  have h1: "trim (promptInput_value (main example_window example_page)) \<noteq> []"
    by (simp add: example_trim lit_Hi_nonempty)
  have h3: "ToString (JString (lit ''Hello'')) = Inr (lit ''Hello'')" by simp
  show ?thesis
    using h1 example_answer h3
      handleSend_user_then_bot [OF h1 example_answer h3, of example_window]
    by (simp add: example_trim example_messages)
qed

text \<open>
  A body that is the JSON value \<open>null\<close> has no fields to read: \<open>data.answer\<close> throws, and
  \<open>askServer\<close> rejects as it does on a failed request.
\<close>

lemma askServer_null_body: "askServer_resumed (Inr (Inr JNull)) = Inl TypeError"
  by (simp add: askServer_resumed_def)

text \<open>
  C2. For a response whose body is a JSON object: when the field \<open>answer\<close> is absent or
  falsy, \<open>askServer\<close> returns the fixed string \<open>Sorry, I couldn't understand.\<close> and
  that string is the text of the bot message rendered; when the field is a non-empty
  string, that string is returned and rendered. Nothing here depends on the question.
\<close>

theorem askServer_fallback_or_answer:
  "((map_of props (lit ''answer'') = None \<or>
     (\<exists>v. map_of props (lit ''answer'') = Some v \<and> \<not> ToBoolean v)) \<longrightarrow>
      askServer_resumed (Inr (Inr (JObject props))) =
        Inr (JString (lit ''Sorry, I couldn't understand.'')) \<and>
      messages (snd (handleSend_resumed w (Inr (Inr (JObject props))) s)) =
        messages s @ [\<lparr>className = lit ''msg bot'',
                        textContent = lit ''Sorry, I couldn't understand.''\<rparr>]) \<and>
   (map_of props (lit ''answer'') = Some (JString t) \<and> t \<noteq> [] \<longrightarrow>
      askServer_resumed (Inr (Inr (JObject props))) = Inr (JString t) \<and>
      messages (snd (handleSend_resumed w (Inr (Inr (JObject props))) s)) =
        messages s @ [\<lparr>className = lit ''msg bot'', textContent = t\<rparr>])"
proof (intro conjI impI)
  assume a: "map_of props (lit ''answer'') = None \<or>
     (\<exists>v. map_of props (lit ''answer'') = Some v \<and> \<not> ToBoolean v)"
  then show r: "askServer_resumed (Inr (Inr (JObject props))) =
      Inr (JString (lit ''Sorry, I couldn't understand.''))"
    by (auto simp: askServer_resumed_def logical_or_def fallback_def)
  show "messages (snd (handleSend_resumed w (Inr (Inr (JObject props))) s)) =
        messages s @ [\<lparr>className = lit ''msg bot'',
                        textContent = lit ''Sorry, I couldn't understand.''\<rparr>]"
    by (simp add: handleSend_resumed_answer [OF r])
next
  assume a: "map_of props (lit ''answer'') = Some (JString t) \<and> t \<noteq> []"
  then show r: "askServer_resumed (Inr (Inr (JObject props))) = Inr (JString t)"
    by (simp add: askServer_resumed_def logical_or_def)
  show "messages (snd (handleSend_resumed w (Inr (Inr (JObject props))) s)) =
        messages s @ [\<lparr>className = lit ''msg bot'', textContent = t\<rparr>]"
    by (simp add: handleSend_resumed_answer [OF r])
qed

theorem askServer_fallback_or_answer_witness:
  "map_of [] (lit ''answer'') = (None :: jsval option) \<and>
   askServer_resumed (Inr (Inr (JObject []))) =
     Inr (JString (lit ''Sorry, I couldn't understand.'')) \<and>
   messages (snd (handleSend_resumed example_window (Inr (Inr (JObject [])))
                    (main example_window example_page))) =
     [\<lparr>className = lit ''msg bot'', textContent = lit ''Sorry, I couldn't understand.''\<rparr>] \<and>
   map_of [(lit ''answer'', JString (lit ''Hello''))] (lit ''answer'') =
     Some (JString (lit ''Hello'')) \<and> lit ''Hello'' \<noteq> [] \<and>
   askServer_resumed example_reply = Inr (JString (lit ''Hello''))"
  using askServer_fallback_or_answer
          [of "[]" example_window "main example_window example_page" "lit ''Hello''"]
        askServer_fallback_or_answer
          [of "[(lit ''answer'', JString (lit ''Hello''))]" example_window
              "main example_window example_page" "lit ''Hello''"]
  by (simp add: example_messages example_reply_def lit_def)

text \<open>
  C3. When the input trims to the empty string, \<open>handleSend\<close> returns at once and the
  state is the one it started in: the transcript is unchanged, no effect is added (no
  request is issued), and the click listener leaves the state as it was.
\<close>

theorem handleSend_blank_noop:
  assumes "trim (promptInput_value s) = []"
  shows "handleSend s = (Resolved, s) \<and>
         messages (snd (handleSend s)) = messages s \<and>
         log (snd (handleSend s)) = log s \<and>
         call HandleSend e s = s"
  using assms by (simp add: handleSend_def settle_def)

theorem handleSend_blank_noop_witness:
  "trim (promptInput_value (main example_window blank_page)) = [] \<and>
   handleSend (main example_window blank_page) = (Resolved, main example_window blank_page)"
proof -
  have h: "trim (promptInput_value (main example_window blank_page)) = []"
    by (simp add: main_def example_window_def example_page_def blank_page_def
        addEventListener_def trim_def lit_def isWhiteSpace_def Let_def)
  show ?thesis using h handleSend_blank_noop [OF h] by simp
qed

text \<open>
  C4. When the input is not blank and the request rejects, or the response's \<open>json()\<close>
  rejects, \<open>askServer\<close> rejects with that error and so does \<open>handleSend\<close>, which leaves the
  state it resumed in untouched (no bot message, no synthesis call); a caller that dropped
  the promise sees an unhandled rejection. Over the whole invocation the transcript gains
  the user's message only, and the effects are the user's node, the scroll, the clearing
  of the field and the request.
\<close>

theorem handleSend_failure_propagates:
  assumes "trim (promptInput_value s) \<noteq> []"
    and "r = Inl e \<or> r = Inr (Inl e)"
  shows "askServer_resumed r = Inl e \<and>
         handleSend_resumed w r s' = (Rejected e, s') \<and>
         uncaught (settle (handleSend_resumed w r s')) = uncaught s' @ [e] \<and>
         fst (handleSend_completed w r s) = Rejected e \<and>
         messages (snd (handleSend_completed w r s)) =
           messages s @
           [\<lparr>className = lit ''msg user'', textContent = trim (promptInput_value s)\<rparr>] \<and>
         log (snd (handleSend_completed w r s)) =
           log s @
           [AppendChild \<lparr>className = lit ''msg user'',
                         textContent = trim (promptInput_value s)\<rparr>,
            ScrollToBottom,
            SetInputValue [],
            Fetch (next_fetch s) (askServer_request (trim (promptInput_value s)))]"
proof -
  have r: "askServer_resumed r = Inl e"
    using assms(2) by (auto simp: askServer_resumed_def)
  show ?thesis
    by (simp add: r handleSend_resumed_rejected [OF r] settle_def
        handleSend_completed_proceeds [OF assms(1)])
qed

theorem handleSend_failure_propagates_witness:
  "trim (promptInput_value (main example_window example_page)) \<noteq> [] \<and>
   fst (handleSend_completed example_window (Inr (Inl SyntaxError))
          (main example_window example_page)) = Rejected SyntaxError \<and>
   messages (snd (handleSend_completed example_window (Inl TypeError)
          (main example_window example_page))) =
     [\<lparr>className = lit ''msg user'', textContent = lit ''Hi''\<rparr>]"
proof -
  have h1: "trim (promptInput_value (main example_window example_page)) \<noteq> []"
    by (simp add: example_trim lit_Hi_nonempty)
  show ?thesis
    using h1
      handleSend_failure_propagates [OF h1, of "Inr (Inl SyntaxError)" SyntaxError example_window]
      handleSend_failure_propagates [OF h1, of "Inl TypeError" TypeError example_window]
    by (simp add: example_trim example_messages)
qed

text \<open>
  C5. After a successful answer the effects of the resumed \<open>handleSend\<close> are the bot's
  node and the scroll, followed by nothing when the box is unchecked or \<open>window\<close> has no
  \<open>speechSynthesis\<close>, and otherwise by exactly \<open>cancel()\<close> and then \<open>speak\<close> of one
  utterance with the answer's text and the locale \<open>en-IN\<close>.
\<close>

theorem handleSend_speaks_when_enabled:
  assumes "askServer_resumed r = Inr ans" and "ToString ans = Inr a"
  shows "log (snd (handleSend_resumed w r s)) =
           log s @
           [AppendChild \<lparr>className = lit ''msg bot'', textContent = a\<rparr>, ScrollToBottom] @
           (if speakChk_checked s \<and> speechSynthesis_in_window w
            then [SynthCancel,
                  SynthSpeak \<lparr>utterance_text = a, utterance_lang = lit ''en-IN''\<rparr>]
            else [])"
  by (simp add: handleSend_resumed_answer [OF assms])

lemma example_synthesis: "speechSynthesis_in_window example_window"
  by (simp add: example_window_def)

theorem handleSend_speaks_when_enabled_witness:
  "askServer_resumed example_reply = Inr (JString (lit ''Hello'')) \<and>
   ToString (JString (lit ''Hello'')) = Inr (lit ''Hello'') \<and>
   log (snd (handleSend_resumed example_window example_reply
               (main example_window example_page))) =
     [AppendChild \<lparr>className = lit ''msg bot'', textContent = lit ''Hello''\<rparr>,
      ScrollToBottom,
      SynthCancel,
      SynthSpeak \<lparr>utterance_text = lit ''Hello'', utterance_lang = lit ''en-IN''\<rparr>] \<and>
   log (snd (handleSend_resumed example_window example_reply
               (step example_window (main example_window example_page) UserToggles))) =
     [AppendChild \<lparr>className = lit ''msg bot'', textContent = lit ''Hello''\<rparr>,
      ScrollToBottom]"
proof -
  have h3: "ToString (JString (lit ''Hello'')) = Inr (lit ''Hello'')" by simp
  show ?thesis
    using example_answer h3
      handleSend_speaks_when_enabled [OF example_answer h3, of example_window
         "main example_window example_page"]
      handleSend_speaks_when_enabled [OF example_answer h3, of example_window
         "step example_window (main example_window example_page) UserToggles"]
    by (simp add: example_log example_checked example_synthesis)
qed

section \<open>What no event changes\<close>

lemma settle_simps:
  "settle (Resolved, s) = s"
  "settle (Awaiting i, s) = s"
  "settle (Rejected e, s) = s\<lparr>uncaught := uncaught s @ [e]\<rparr>"
  by (simp_all add: settle_def)

lemma settle_handleSend:
  "settle (handleSend s) = snd (handleSend s)"
  by (cases "trim (promptInput_value s) = []")
     (simp_all add: handleSend_blank handleSend_proceeds settle_simps)

lemma handleSend_wiring:
  "listeners (snd (handleSend s)) = listeners s \<and>
   recognition (snd (handleSend s)) = recognition s \<and>
   micBtn_classList (snd (handleSend s)) = micBtn_classList s \<and>
   micBtn_disabled (snd (handleSend s)) = micBtn_disabled s \<and>
   micBtn_title (snd (handleSend s)) = micBtn_title s"
  by (cases "trim (promptInput_value s) = []")
     (simp_all add: handleSend_blank handleSend_proceeds)

lemma handleSend_resumed_wiring:
  "listeners (settle (handleSend_resumed w r s)) = listeners s \<and>
   recognition (settle (handleSend_resumed w r s)) = recognition s \<and>
   micBtn_classList (settle (handleSend_resumed w r s)) = micBtn_classList s \<and>
   micBtn_disabled (settle (handleSend_resumed w r s)) = micBtn_disabled s \<and>
   micBtn_title (settle (handleSend_resumed w r s)) = micBtn_title s"
  by (auto simp: handleSend_resumed_def addMsg_def settle_simps Let_def
      split: sum.splits)

lemma call_wiring:
  "listeners (call h e s) = listeners s \<and>
   recognition (call h e s) = recognition s \<and>
   micBtn_disabled (call h e s) = micBtn_disabled s \<and>
   micBtn_title (call h e s) = micBtn_title s"
proof (cases h)
  case OnresultArrow
  then show ?thesis
    by (simp add: settle_handleSend handleSend_wiring set_promptInput_value_def
        split: list.splits)
qed (simp_all add: settle_handleSend handleSend_wiring recognition_start_def
      recognition_stop_def Let_def split: option.splits sum.splits)

lemma foldl_call_wiring:
  "listeners (foldl (\<lambda>s' h. call h e s') s hs) = listeners s \<and>
   recognition (foldl (\<lambda>s' h. call h e s') s hs) = recognition s \<and>
   micBtn_disabled (foldl (\<lambda>s' h. call h e s') s hs) = micBtn_disabled s \<and>
   micBtn_title (foldl (\<lambda>s' h. call h e s') s hs) = micBtn_title s"
  by (induction hs arbitrary: s) (simp_all add: call_wiring)

lemma step_wiring:
  "listeners (step w s e) = listeners s \<and>
   recognition (step w s e) = recognition s \<and>
   micBtn_disabled (step w s e) = micBtn_disabled s \<and>
   micBtn_title (step w s e) = micBtn_title s"
proof (cases e)
  case (DomEvent tgt ty k)
  then show ?thesis by (simp add: foldl_call_wiring)
next
  case (FetchSettled i r)
  then show ?thesis by (simp add: handleSend_resumed_wiring)
qed (simp_all add: call_wiring Let_def split: option.splits)

lemma run_wiring:
  "listeners (run w s es) = listeners s \<and>
   recognition (run w s es) = recognition s \<and>
   micBtn_disabled (run w s es) = micBtn_disabled s \<and>
   micBtn_title (run w s es) = micBtn_title s"
  unfolding run_def by (induction es arbitrary: s) (simp_all add: step_wiring)

lemma main_listeners:
  "listeners (main w p) =
     [(SendBtn, lit ''click'', HandleSend), (PromptInput, lit ''keydown'', KeydownArrow)] @
     (if webkitSpeechRecognition_in_window w \<or> SpeechRecognition_in_window w
      then [(MicBtn, lit ''mousedown'', MousedownArrow), (MicBtn, lit ''mouseup'', MouseupArrow)]
      else [])"
  by (simp add: main_def addEventListener_def Let_def)

lemma main_recognition:
  "recognition (main w p) =
     (if webkitSpeechRecognition_in_window w \<or> SpeechRecognition_in_window w
      then Some \<lparr>recognition_lang = lit ''en-IN'', interimResults = False,
                 maxAlternatives = 1, onresult = Some OnresultArrow,
                 onerror = Some OnerrorArrow, onend = Some OnendArrow\<rparr>
      else None)"
  by (simp add: main_def addEventListener_def Let_def)

lemma main_log: "log (main w p) = []"
  by (simp add: main_def addEventListener_def Let_def)

section \<open>The order of the steps of \<open>handleSend\<close>\<close>

lemma example_handleSend_log:
  "log (snd (handleSend (main example_window example_page))) =
     [AppendChild \<lparr>className = lit ''msg user'', textContent = lit ''Hi''\<rparr>,
      ScrollToBottom,
      SetInputValue [],
      Fetch 0 (askServer_request (lit ''Hi''))]"
proof -
  have h1: "trim (promptInput_value (main example_window example_page)) \<noteq> []"
    by (simp add: example_trim lit_Hi_nonempty)
  show ?thesis
    by (simp add: handleSend_proceeds [OF h1] example_trim example_log example_next_fetch)
qed

text \<open>
  Against C6 as stated (the field is cleared, then the user's message is rendered): in
  the scenario, among the effects of \<open>handleSend\<close> the clearing of the field does not come
  before the rendering of the user's message.
\<close>

theorem handleSend_clear_then_render_counterexample:
  "\<not> happens_before (SetInputValue [])
       (AppendChild \<lparr>className = lit ''msg user'', textContent = lit ''Hi''\<rparr>)
       (log (snd (handleSend (main example_window example_page))))"
  by (simp add: example_handleSend_log)

text \<open>
  C6, as amended. With a non-blank input \<open>handleSend\<close> first renders the user's message,
  then clears the input field, then issues the request, all before it suspends (so before
  the response arrives); when the answer is returned it renders it as the bot's message,
  and only then come the synthesis calls, if any.
\<close>

theorem handleSend_order:
  assumes "trim (promptInput_value s) \<noteq> []"
    and "askServer_resumed r = Inr ans"
    and "ToString ans = Inr a"
  shows "log (snd (handleSend s)) =
           log s @
           [AppendChild \<lparr>className = lit ''msg user'',
                         textContent = trim (promptInput_value s)\<rparr>,
            ScrollToBottom,
            SetInputValue [],
            Fetch (next_fetch s) (askServer_request (trim (promptInput_value s)))] \<and>
         promptInput_value (snd (handleSend s)) = [] \<and>
         log (snd (handleSend_completed w r s)) =
           log s @
           [AppendChild \<lparr>className = lit ''msg user'',
                         textContent = trim (promptInput_value s)\<rparr>,
            ScrollToBottom,
            SetInputValue [],
            Fetch (next_fetch s) (askServer_request (trim (promptInput_value s))),
            AppendChild \<lparr>className = lit ''msg bot'', textContent = a\<rparr>,
            ScrollToBottom] @
           (if speakChk_checked s \<and> speechSynthesis_in_window w
            then [SynthCancel,
                  SynthSpeak \<lparr>utterance_text = a, utterance_lang = lit ''en-IN''\<rparr>]
            else [])"
  by (simp add: handleSend_proceeds [OF assms(1)] handleSend_completed_proceeds [OF assms(1)]
      handleSend_resumed_answer [OF assms(2,3)])

theorem handleSend_order_witness:
  "trim (promptInput_value (main example_window example_page)) \<noteq> [] \<and>
   askServer_resumed example_reply = Inr (JString (lit ''Hello'')) \<and>
   ToString (JString (lit ''Hello'')) = Inr (lit ''Hello'') \<and>
   take 6 (log (snd (handleSend_completed example_window example_reply
                       (main example_window example_page)))) =
     [AppendChild \<lparr>className = lit ''msg user'', textContent = lit ''Hi''\<rparr>,
      ScrollToBottom,
      SetInputValue [],
      Fetch 0 (askServer_request (lit ''Hi'')),
      AppendChild \<lparr>className = lit ''msg bot'', textContent = lit ''Hello''\<rparr>,
      ScrollToBottom]"
proof -
  have h1: "trim (promptInput_value (main example_window example_page)) \<noteq> []"
    by (simp add: example_trim lit_Hi_nonempty)
  have h3: "ToString (JString (lit ''Hello'')) = Inr (lit ''Hello'')" by simp
  show ?thesis
    using h1 example_answer h3
      handleSend_order [OF h1 example_answer h3, of example_window]
    by (simp add: example_trim example_log example_next_fetch example_checked
        example_synthesis)
qed

section \<open>The question sent\<close>

lemma question_sent_askServer_request:
  "question_sent (askServer_request q) = Some q"
  by (simp add: question_sent_def askServer_request_def)

lemma handleSend_log_cases:
  "log (snd (handleSend s)) = log s \<or>
   (trim (promptInput_value s) \<noteq> [] \<and>
    log (snd (handleSend s)) =
      log s @
      [AppendChild \<lparr>className = lit ''msg user'',
                    textContent = trim (promptInput_value s)\<rparr>,
       ScrollToBottom,
       SetInputValue [],
       Fetch (next_fetch s) (askServer_request (trim (promptInput_value s)))])"
  by (cases "trim (promptInput_value s) = []")
     (simp_all add: handleSend_blank handleSend_proceeds)

lemma handleSend_questions:
  "list_all trimmed_nonempty_question (log s) \<Longrightarrow>
   list_all trimmed_nonempty_question (log (snd (handleSend s)))"
  using handleSend_log_cases [of s]
  using trim_not_ws_ends [of "promptInput_value s"]
  by (auto simp: question_sent_askServer_request)

lemma handleSend_resumed_questions:
  "list_all trimmed_nonempty_question (log s) \<Longrightarrow>
   list_all trimmed_nonempty_question (log (settle (handleSend_resumed w r s)))"
  by (auto simp: handleSend_resumed_def addMsg_def settle_simps Let_def
      split: sum.splits)

lemma call_questions:
  "list_all trimmed_nonempty_question (log s) \<Longrightarrow>
   list_all trimmed_nonempty_question (log (call h e s))"
proof (cases h)
  case OnresultArrow
  assume a: "list_all trimmed_nonempty_question (log s)"
  show ?thesis
  proof (cases "event_results e")
    case Nil
    then show ?thesis using a OnresultArrow by simp
  next
    case (Cons alts rs)
    show ?thesis
    proof (cases alts)
      case Nil
      then show ?thesis using a OnresultArrow Cons by simp
    next
      case (Cons t ts)
      have "list_all trimmed_nonempty_question (log (set_promptInput_value t s))"
        using a by (simp add: set_promptInput_value_def)
      then show ?thesis
        using OnresultArrow Cons \<open>event_results e = alts # rs\<close>
        by (simp add: settle_handleSend handleSend_questions)
    qed
  qed
qed (auto simp: settle_handleSend handleSend_questions recognition_start_def
      recognition_stop_def Let_def split: option.splits sum.splits)

lemma foldl_call_questions:
  "list_all trimmed_nonempty_question (log s) \<Longrightarrow>
   list_all trimmed_nonempty_question (log (foldl (\<lambda>s' h. call h e s') s hs))"
  by (induction hs arbitrary: s) (simp_all add: call_questions)

lemma step_questions:
  assumes "list_all trimmed_nonempty_question (log s)"
  shows "list_all trimmed_nonempty_question (log (step w s e))"
proof (cases e)
  case (DomEvent tgt ty k)
  then show ?thesis using assms by (simp add: foldl_call_questions)
next
  case (FetchSettled i r)
  have "list_all trimmed_nonempty_question
          (log (s\<lparr>awaiting := removeAll i (awaiting s)\<rparr>))"
    using assms by simp
  from handleSend_resumed_questions [OF this] show ?thesis
    using FetchSettled assms by simp
next
  case (SpeechResult rs)
  then show ?thesis using assms by (simp add: call_questions split: option.splits)
next
  case SpeechError
  have "list_all trimmed_nonempty_question (log (s\<lparr>started := False\<rparr>))"
    using assms by simp
  then show ?thesis
    using SpeechError assms by (simp add: call_questions Let_def split: option.splits)
next
  case SpeechEnd
  have "list_all trimmed_nonempty_question (log (s\<lparr>started := False\<rparr>))"
    using assms by simp
  then show ?thesis
    using SpeechEnd assms by (simp add: call_questions Let_def split: option.splits)
qed (use assms in simp_all)

lemma run_questions:
  "list_all trimmed_nonempty_question (log s) \<Longrightarrow>
   list_all trimmed_nonempty_question (log (run w s es))"
  unfolding run_def by (induction es arbitrary: s) (simp_all add: step_questions)

lemma padded_start:
  "messages (main example_window padded_page) = []"
  "log (main example_window padded_page) = []"
  "next_fetch (main example_window padded_page) = 0"
  by (simp_all add: main_def example_window_def example_page_def padded_page_def
      addEventListener_def Let_def)

text \<open>
  C10. Whenever \<open>handleSend\<close> proceeds to the request, there is one string \<open>q\<close> that is
  both the text of the user's message rendered and the question in the body of the
  request: it is the content of the input field when \<open>handleSend\<close> ran with a prefix and a
  suffix of white space removed, it is not empty, and it neither begins nor ends with a
  white space code unit; it is the field's \<open>trim()\<close>. Over every run of the script from
  page load, every request issued carries a question that is not empty and neither
  begins nor ends with white space.
\<close>

theorem question_rendered_is_question_sent:
  "(handleSend s = (Awaiting i, s1) \<longrightarrow>
      (\<exists>pre q post.
         promptInput_value s = pre @ q @ post \<and>
         list_all isWhiteSpace pre \<and> list_all isWhiteSpace post \<and>
         q \<noteq> [] \<and> \<not> isWhiteSpace (hd q) \<and> \<not> isWhiteSpace (last q) \<and>
         q = trim (promptInput_value s) \<and>
         messages s1 = messages s @ [\<lparr>className = lit ''msg user'', textContent = q\<rparr>] \<and>
         log s1 =
           log s @
           [AppendChild \<lparr>className = lit ''msg user'', textContent = q\<rparr>,
            ScrollToBottom,
            SetInputValue [],
            Fetch i \<lparr>url = lit ''/ask'',
                     http_method = lit ''POST'',
                     headers = [(lit ''Content-Type'', lit ''application/json'')],
                     body_JSON_stringify = JObject [(lit ''question'', JString q)]\<rparr>])) \<and>
   list_all trimmed_nonempty_question (log (run w (main w p) es))"
proof (intro conjI impI)
  assume a: "handleSend s = (Awaiting i, s1)"
  let ?q = "trim (promptInput_value s)"
  have ne: "?q \<noteq> []"
  proof
    assume "?q = []"
    from handleSend_blank [OF this] a show False by simp
  qed
  let ?a = "dropWhile isWhiteSpace (promptInput_value s)"
  let ?b = "dropWhile isWhiteSpace (rev ?a)"
  let ?pre = "takeWhile isWhiteSpace (promptInput_value s)"
  let ?post = "rev (takeWhile isWhiteSpace (rev ?a))"
  have q: "?q = rev ?b"
    by (simp only: trim_def)
  have "?q @ ?post = rev (takeWhile isWhiteSpace (rev ?a) @ ?b)"
    by (simp only: q rev_append)
  also have "\<dots> = rev (rev ?a)"
    by (simp only: takeWhile_dropWhile_id)
  also have "\<dots> = ?a"
    by (simp only: rev_rev_ident)
  finally have da: "?a = ?q @ ?post"
    by (rule sym)
  have "promptInput_value s = ?pre @ ?a"
    by simp
  with da have d: "promptInput_value s = ?pre @ ?q @ ?post"
    by simp
  have w: "list_all isWhiteSpace ?pre" "list_all isWhiteSpace ?post"
    by (simp_all add: list_all_iff) (meson set_takeWhileD)+
  from ne q have b: "?b \<noteq> []"
    by simp
  have a': "?a \<noteq> []"
  proof
    assume h: "?a = []"
    have "?b = []" unfolding h by simp
    with b show False by contradiction
  qed
  have "\<not> isWhiteSpace (hd ?b)"
    using b by (rule hd_dropWhile)
  moreover have "last ?q = hd ?b"
    using b by (simp add: q last_rev)
  ultimately have e2: "\<not> isWhiteSpace (last ?q)"
    by simp
  have "\<not> isWhiteSpace (hd ?a)"
    using a' by (rule hd_dropWhile)
  moreover have "hd ?q = hd ?a"
    using ne da by (metis hd_append2)
  ultimately have e1: "\<not> isWhiteSpace (hd ?q)"
    by simp
  note ends = conjI [OF e1 e2]
  from a handleSend_proceeds [OF ne]
  have m: "messages s1 = messages s @ [\<lparr>className = lit ''msg user'', textContent = ?q\<rparr>]"
    by auto
  from a handleSend_proceeds [OF ne]
  have l: "log s1 =
           log s @
           [AppendChild \<lparr>className = lit ''msg user'', textContent = ?q\<rparr>,
            ScrollToBottom,
            SetInputValue [],
            Fetch i \<lparr>url = lit ''/ask'',
                     http_method = lit ''POST'',
                     headers = [(lit ''Content-Type'', lit ''application/json'')],
                     body_JSON_stringify = JObject [(lit ''question'', JString ?q)]\<rparr>]"
    by (auto simp: askServer_request_def)
  from d w ne ends m l
  show "\<exists>pre q post.
         promptInput_value s = pre @ q @ post \<and>
         list_all isWhiteSpace pre \<and> list_all isWhiteSpace post \<and>
         q \<noteq> [] \<and> \<not> isWhiteSpace (hd q) \<and> \<not> isWhiteSpace (last q) \<and>
         q = trim (promptInput_value s) \<and>
         messages s1 = messages s @ [\<lparr>className = lit ''msg user'', textContent = q\<rparr>] \<and>
         log s1 =
           log s @
           [AppendChild \<lparr>className = lit ''msg user'', textContent = q\<rparr>,
            ScrollToBottom,
            SetInputValue [],
            Fetch i \<lparr>url = lit ''/ask'',
                     http_method = lit ''POST'',
                     headers = [(lit ''Content-Type'', lit ''application/json'')],
                     body_JSON_stringify = JObject [(lit ''question'', JString q)]\<rparr>]"
    by blast
next
  show "list_all trimmed_nonempty_question (log (run w (main w p) es))"
    by (rule run_questions) (simp add: main_log)
qed

theorem question_rendered_is_question_sent_witness:
  "handleSend (main example_window padded_page) =
     (Awaiting 0, snd (handleSend (main example_window padded_page))) \<and>
   promptInput_value (main example_window padded_page) =
     [0x0009, 0x000A, 0x000B, 0x000C, 0x0020, 0x00A0, 0x1680, 0x2000, 0x2001, 0x2002,
      0x2003, 0x2004, 0x2005] @ lit ''Hi there'' @
     [0x2006, 0x2007, 0x2008, 0x2009, 0x200A, 0x2028, 0x2029, 0x202F, 0x205F, 0x3000,
      0xFEFF] \<and>
   (\<exists>pre q post.
      promptInput_value (main example_window padded_page) = pre @ q @ post \<and>
      list_all isWhiteSpace pre \<and> list_all isWhiteSpace post \<and>
      q \<noteq> [] \<and> \<not> isWhiteSpace (hd q) \<and> \<not> isWhiteSpace (last q) \<and>
      q = lit ''Hi there'' \<and>
      messages (snd (handleSend (main example_window padded_page))) =
        [\<lparr>className = lit ''msg user'', textContent = q\<rparr>]) \<and>
   messages (snd (handleSend (main example_window padded_page))) =
     [\<lparr>className = lit ''msg user'', textContent = lit ''Hi there''\<rparr>] \<and>
   log (snd (handleSend (main example_window padded_page))) =
     [AppendChild \<lparr>className = lit ''msg user'', textContent = lit ''Hi there''\<rparr>,
      ScrollToBottom,
      SetInputValue [],
      Fetch 0 \<lparr>url = lit ''/ask'',
               http_method = lit ''POST'',
               headers = [(lit ''Content-Type'', lit ''application/json'')],
               body_JSON_stringify = JObject [(lit ''question'', JString (lit ''Hi there''))]\<rparr>] \<and>
   list_all trimmed_nonempty_question
     (log (run example_window (main example_window example_page)
             [UserTypes ([0x0009, 0x00A0] @ lit '' Hi there '' @ [0x3000]),
              DomEvent SendBtn (lit ''click'') None]))"
proof -
  note c = question_rendered_is_question_sent
      [of "main example_window padded_page" 0
          "snd (handleSend (main example_window padded_page))"
          example_window example_page
          "[UserTypes ([0x0009, 0x00A0] @ lit '' Hi there '' @ [0x3000]),
            DomEvent SendBtn (lit ''click'') None]"]
  have v: "promptInput_value (main example_window padded_page) =
     [0x0009, 0x000A, 0x000B, 0x000C, 0x0020, 0x00A0, 0x1680, 0x2000, 0x2001, 0x2002,
      0x2003, 0x2004, 0x2005] @ lit ''Hi there'' @
     [0x2006, 0x2007, 0x2008, 0x2009, 0x200A, 0x2028, 0x2029, 0x202F, 0x205F, 0x3000,
      0xFEFF]"
    by (simp add: main_def example_window_def example_page_def padded_page_def
        addEventListener_def lit_def Let_def)
  have t: "trim (promptInput_value (main example_window padded_page)) = lit ''Hi there''"
    unfolding v by (simp add: trim_def lit_def isWhiteSpace_def)
  have h1: "trim (promptInput_value (main example_window padded_page)) \<noteq> []"
    by (simp add: t lit_def)
  have hs: "handleSend (main example_window padded_page) =
     (Awaiting 0, snd (handleSend (main example_window padded_page)))"
    by (simp add: handleSend_proceeds [OF h1] padded_start)
  from c [THEN conjunct1, THEN mp, OF hs]
  obtain pre q post where
    d: "promptInput_value (main example_window padded_page) = pre @ q @ post"
    and w: "list_all isWhiteSpace pre" "list_all isWhiteSpace post"
    and n: "q \<noteq> []" "\<not> isWhiteSpace (hd q)" "\<not> isWhiteSpace (last q)"
    and q: "q = trim (promptInput_value (main example_window padded_page))"
    and m: "messages (snd (handleSend (main example_window padded_page))) =
            messages (main example_window padded_page) @
            [\<lparr>className = lit ''msg user'', textContent = q\<rparr>]"
    and l: "log (snd (handleSend (main example_window padded_page))) =
            log (main example_window padded_page) @
            [AppendChild \<lparr>className = lit ''msg user'', textContent = q\<rparr>,
             ScrollToBottom,
             SetInputValue [],
             Fetch 0 \<lparr>url = lit ''/ask'',
                      http_method = lit ''POST'',
                      headers = [(lit ''Content-Type'', lit ''application/json'')],
                      body_JSON_stringify = JObject [(lit ''question'', JString q)]\<rparr>]"
    by blast
  from q have q': "q = lit ''Hi there''" by (simp only: t)
  from m have m': "messages (snd (handleSend (main example_window padded_page))) =
            [\<lparr>className = lit ''msg user'', textContent = q\<rparr>]"
    by (simp add: padded_start)
  from d w n q' m'
  have e: "\<exists>pre q post.
      promptInput_value (main example_window padded_page) = pre @ q @ post \<and>
      list_all isWhiteSpace pre \<and> list_all isWhiteSpace post \<and>
      q \<noteq> [] \<and> \<not> isWhiteSpace (hd q) \<and> \<not> isWhiteSpace (last q) \<and>
      q = lit ''Hi there'' \<and>
      messages (snd (handleSend (main example_window padded_page))) =
        [\<lparr>className = lit ''msg user'', textContent = q\<rparr>]"
    by blast
  from m' have m'': "messages (snd (handleSend (main example_window padded_page))) =
     [\<lparr>className = lit ''msg user'', textContent = lit ''Hi there''\<rparr>]"
    by (simp only: q')
  from l have l': "log (snd (handleSend (main example_window padded_page))) =
     [AppendChild \<lparr>className = lit ''msg user'', textContent = lit ''Hi there''\<rparr>,
      ScrollToBottom,
      SetInputValue [],
      Fetch 0 \<lparr>url = lit ''/ask'',
               http_method = lit ''POST'',
               headers = [(lit ''Content-Type'', lit ''application/json'')],
               body_JSON_stringify = JObject [(lit ''question'', JString (lit ''Hi there''))]\<rparr>]"
    by (simp only: q' padded_start append_Nil)
  from hs v e m'' l' c [THEN conjunct2]
  show ?thesis by (intro conjI)
qed

section \<open>Speech recognition unsupported\<close>

lemma handleSend_recognition_calls:
  "filter is_recognition_call (log (snd (handleSend s))) =
   filter is_recognition_call (log s)"
  using handleSend_log_cases [of s] by auto

lemma handleSend_resumed_recognition_calls:
  "filter is_recognition_call (log (settle (handleSend_resumed w r s))) =
   filter is_recognition_call (log s)"
  by (auto simp: handleSend_resumed_def addMsg_def settle_simps Let_def
      split: sum.splits)

lemma call_recognition_calls:
  assumes "recognition s = None"
  shows "filter is_recognition_call (log (call h e s)) =
         filter is_recognition_call (log s)"
proof (cases h)
  case OnresultArrow
  then show ?thesis
    by (simp add: settle_handleSend handleSend_recognition_calls
        set_promptInput_value_def split: list.splits)
qed (use assms in \<open>simp_all add: settle_handleSend handleSend_recognition_calls
      recognition_start_def recognition_stop_def Let_def\<close>)

lemma foldl_call_recognition_calls:
  "recognition s = None \<Longrightarrow>
   filter is_recognition_call (log (foldl (\<lambda>s' h. call h e s') s hs)) =
   filter is_recognition_call (log s)"
  by (induction hs arbitrary: s) (simp_all add: call_recognition_calls call_wiring)

lemma step_recognition_calls:
  assumes "recognition s = None"
  shows "filter is_recognition_call (log (step w s e)) =
         filter is_recognition_call (log s)"
proof (cases e)
  case (DomEvent tgt ty k)
  then show ?thesis using assms by (simp add: foldl_call_recognition_calls)
next
  case (FetchSettled i r)
  then show ?thesis
    using handleSend_resumed_recognition_calls
            [of w r "s\<lparr>awaiting := removeAll i (awaiting s)\<rparr>"]
    by simp
qed (use assms in simp_all)

lemma run_recognition_calls:
  "recognition s = None \<Longrightarrow>
   filter is_recognition_call (log (run w s es)) = filter is_recognition_call (log s)"
  unfolding run_def
  by (induction es arbitrary: s) (simp_all add: step_recognition_calls step_wiring)

text \<open>
  C8. When \<open>window\<close> has neither recognition constructor, the script at load disables the
  microphone button and sets its title to the explanatory label, and creates no
  recognition object; after any sequence of events the button is still so, any event on
  the button leaves the state as it was, and no call to a recognition engine has been
  made.
\<close>

theorem unsupported_recognition_never_invoked:
  assumes "\<not> webkitSpeechRecognition_in_window w"
    and "\<not> SpeechRecognition_in_window w"
  shows "micBtn_disabled (main w p) \<and>
         micBtn_title (main w p) = lit ''Voice input not supported in this browser'' \<and>
         recognition (main w p) = None \<and>
         micBtn_disabled (run w (main w p) es) \<and>
         micBtn_title (run w (main w p) es) =
           lit ''Voice input not supported in this browser'' \<and>
         step w (run w (main w p) es) (DomEvent MicBtn ty k) = run w (main w p) es \<and>
         filter is_recognition_call (log (run w (main w p) es)) = []"
proof -
  have d: "micBtn_disabled (main w p)"
    and t: "micBtn_title (main w p) = lit ''Voice input not supported in this browser''"
    using assms by (simp_all add: main_def addEventListener_def Let_def)
  have r: "recognition (main w p) = None"
    using assms by (simp add: main_recognition)
  have l: "listeners_for MicBtn ty (run w (main w p) es) = []"
    using assms by (simp add: listeners_for_def run_wiring main_listeners)
  have c: "filter is_recognition_call (log (run w (main w p) es)) = []"
    by (simp add: run_recognition_calls [OF r] main_log)
  show ?thesis by (simp add: d t r l c run_wiring)
qed

theorem unsupported_recognition_never_invoked_witness:
  "\<not> webkitSpeechRecognition_in_window old_browser \<and>
   \<not> SpeechRecognition_in_window old_browser \<and>
   micBtn_disabled (main old_browser example_page) \<and>
   filter is_recognition_call
     (log (run old_browser (main old_browser example_page)
        [DomEvent MicBtn (lit ''mousedown'') None,
         DomEvent MicBtn (lit ''mouseup'') None])) = []"
proof -
  have h1: "\<not> webkitSpeechRecognition_in_window old_browser"
    and h2: "\<not> SpeechRecognition_in_window old_browser"
    by (simp_all add: old_browser_def)
  show ?thesis
    using h1 h2 unsupported_recognition_never_invoked [OF h1 h2, of example_page
      "[DomEvent MicBtn (lit ''mousedown'') None, DomEvent MicBtn (lit ''mouseup'') None]"]
    by simp
qed

section \<open>The recording indicator\<close>

lemma call_rec_only_mousedown:
  assumes "h \<noteq> MousedownArrow"
  shows "set (micBtn_classList (call h e s)) \<subseteq> set (micBtn_classList s)"
proof (cases h)
  case OnresultArrow
  then show ?thesis
    by (simp add: settle_handleSend handleSend_wiring set_promptInput_value_def
        split: list.splits)
qed (use assms in \<open>auto simp: settle_handleSend handleSend_wiring recognition_stop_def
      classList_remove_def split: option.splits\<close>)

lemma foldl_call_rec_only_mousedown:
  "MousedownArrow \<notin> set hs \<Longrightarrow>
   set (micBtn_classList (foldl (\<lambda>s' h. call h e s') s hs)) \<subseteq> set (micBtn_classList s)"
proof (induction hs arbitrary: s)
  case Nil
  then show ?case by simp
next
  case (Cons h hs)
  then have "h \<noteq> MousedownArrow" and "MousedownArrow \<notin> set hs" by auto
  from Cons.IH [OF this(2), of "call h e s"] call_rec_only_mousedown [OF this(1), of e s]
  show ?case by auto
qed

lemma main_mousedown_listener:
  assumes "MousedownArrow \<in> set (listeners_for tgt ty (run w (main w p) es))"
  shows "tgt = MicBtn \<and> ty = lit ''mousedown''"
  using assms
  by (auto simp: listeners_for_def run_wiring main_listeners split: if_splits)

lemma main_recognition_handlers:
  assumes "recognition (run w (main w p) es) = Some r"
  shows "onresult r = Some OnresultArrow \<and> onerror r = Some OnerrorArrow \<and>
         onend r = Some OnendArrow"
  using assms by (auto simp: run_wiring main_recognition split: if_splits)

lemma step_rec_only_mousedown:
  assumes "lit ''rec'' \<notin> set (micBtn_classList (run w (main w p) es))"
    and "lit ''rec'' \<in> set (micBtn_classList (step w (run w (main w p) es) e))"
  shows "\<exists>k. e = DomEvent MicBtn (lit ''mousedown'') k"
proof (cases e)
  case (DomEvent tgt ty k)
  have "MousedownArrow \<in> set (listeners_for tgt ty (run w (main w p) es))"
  proof (rule ccontr)
    assume "MousedownArrow \<notin> set (listeners_for tgt ty (run w (main w p) es))"
    from foldl_call_rec_only_mousedown [OF this] assms DomEvent show False by auto
  qed
  from main_mousedown_listener [OF this] DomEvent show ?thesis by simp
next
  case (FetchSettled i r)
  then show ?thesis
    using assms
      handleSend_resumed_wiring
        [of w r "(run w (main w p) es)\<lparr>awaiting := removeAll i (awaiting (run w (main w p) es))\<rparr>"]
    by (simp split: if_splits)
next
  case (SpeechResult rs)
  show ?thesis
  proof (cases "recognition (run w (main w p) es)")
    case None
    then show ?thesis using assms SpeechResult by simp
  next
    case (Some r)
    from main_recognition_handlers [OF this] Some assms SpeechResult
      call_rec_only_mousedown [of OnresultArrow "SpeechResult rs" "run w (main w p) es"]
    show ?thesis by auto
  qed
next
  case SpeechError
  show ?thesis
  proof (cases "recognition (run w (main w p) es)")
    case None
    then show ?thesis using assms SpeechError by simp
  next
    case (Some r)
    from main_recognition_handlers [OF this] Some assms SpeechError
    show ?thesis by (simp add: classList_remove_def)
  qed
next
  case SpeechEnd
  show ?thesis
  proof (cases "recognition (run w (main w p) es)")
    case None
    then show ?thesis using assms SpeechEnd by simp
  next
    case (Some r)
    from main_recognition_handlers [OF this] Some assms SpeechEnd
    show ?thesis by (simp add: classList_remove_def)
  qed
qed (use assms in simp_all)

text \<open>
  C9. Where speech recognition is supported, in every state the script can reach, the
  engine's error event and its end event each leave the microphone button without the
  class \<open>rec\<close>, and neither adds a message to the transcript nor has any other effect.
  In every reachable state, the only event that takes the button from not having the
  class \<open>rec\<close> to having it is a \<open>mousedown\<close> on the microphone button.
\<close>

theorem recording_indicator_cleared:
  assumes "webkitSpeechRecognition_in_window w \<or> SpeechRecognition_in_window w"
  shows "lit ''rec'' \<notin> set (micBtn_classList (step w (run w (main w p) es) SpeechError)) \<and>
         lit ''rec'' \<notin> set (micBtn_classList (step w (run w (main w p) es) SpeechEnd)) \<and>
         messages (step w (run w (main w p) es) SpeechError) =
           messages (run w (main w p) es) \<and>
         messages (step w (run w (main w p) es) SpeechEnd) =
           messages (run w (main w p) es) \<and>
         log (step w (run w (main w p) es) SpeechError) = log (run w (main w p) es) \<and>
         log (step w (run w (main w p) es) SpeechEnd) = log (run w (main w p) es) \<and>
         (lit ''rec'' \<notin> set (micBtn_classList (run w (main w p) es)) \<and>
          lit ''rec'' \<in> set (micBtn_classList (step w (run w (main w p) es) e)) \<longrightarrow>
            (\<exists>k. e = DomEvent MicBtn (lit ''mousedown'') k))"
proof -
  obtain r where r: "recognition (run w (main w p) es) = Some r"
    using assms by (simp add: run_wiring main_recognition)
  note h = main_recognition_handlers [OF r]
  show ?thesis
    using step_rec_only_mousedown [of w p es e]
    by (simp add: r h classList_remove_def)
qed

theorem recording_indicator_cleared_witness:
  "(webkitSpeechRecognition_in_window example_window \<or>
    SpeechRecognition_in_window example_window) \<and>
   lit ''rec'' \<in> set (micBtn_classList
     (run example_window (main example_window example_page)
        [DomEvent MicBtn (lit ''mousedown'') None])) \<and>
   lit ''rec'' \<notin> set (micBtn_classList
     (step example_window
        (run example_window (main example_window example_page)
           [DomEvent MicBtn (lit ''mousedown'') None]) SpeechError)) \<and>
   lit ''rec'' \<notin> set (micBtn_classList
     (step example_window
        (run example_window (main example_window example_page)
           [DomEvent MicBtn (lit ''mousedown'') None]) SpeechEnd))"
proof -
  have h: "webkitSpeechRecognition_in_window example_window \<or>
           SpeechRecognition_in_window example_window"
    by (simp add: example_window_def)
  have m: "lit ''rec'' \<in> set (micBtn_classList
     (run example_window (main example_window example_page)
        [DomEvent MicBtn (lit ''mousedown'') None]))"
    by (simp add: run_def listeners_for_def main_def addEventListener_def
        example_window_def example_page_def classList_add_def recognition_start_def
        Let_def lit_def)
  show ?thesis
    using h m recording_indicator_cleared [OF h, of example_page
        "[DomEvent MicBtn (lit ''mousedown'') None]"]
    by simp
qed

section \<open>A recognition result\<close>

lemma main_click_listener:
  assumes "listeners s = listeners (main w p)"
  shows "listeners_for SendBtn (lit ''click'') s = [HandleSend]"
  using assms by (simp add: listeners_for_def main_listeners lit_def)

lemma step_click:
  assumes "listeners s = listeners (main w p)"
  shows "step w s (DomEvent SendBtn (lit ''click'') k) = snd (handleSend s)"
  by (simp add: main_click_listener [OF assms] settle_handleSend)

text \<open>
  C7. Where speech recognition is supported, in every state the script can reach, a result
  event whose first result has a first alternative with transcript \<open>t\<close> does what writing
  \<open>t\<close> into the input field and then clicking send does: \<open>handleSend\<close> runs on the field
  after the write. The field then holds \<open>v\<close>, the transcript as the field sanitizes it,
  which is \<open>t\<close> itself when \<open>t\<close> has no line break, and which is blank exactly when \<open>t\<close>
  is. A blank transcript only stays in the field; otherwise the field is cleared, the
  user's message with the trimmed \<open>v\<close> is rendered and the request with that question is
  issued. Transcript, requests and suspended calls are those of the user entering \<open>t\<close>
  in the field and clicking send.
\<close>

theorem recognition_result_submits:
  assumes "webkitSpeechRecognition_in_window w \<or> SpeechRecognition_in_window w"
    and "s = run w (main w p) es"
    and "e = SpeechResult ((t # alts) # rs)"
    and "click = DomEvent SendBtn (lit ''click'') k"
    and "v = value_sanitization (promptInput_kind s) t"
  shows "step w s e = settle (handleSend (set_promptInput_value t s)) \<and>
         step w s e = step w (set_promptInput_value t s) click \<and>
         promptInput_value (set_promptInput_value t s) = v \<and>
         (0x000A \<notin> set t \<and> 0x000D \<notin> set t \<longrightarrow> v = t) \<and>
         (trim v = [] \<longleftrightarrow> trim t = []) \<and>
         (trim t = [] \<longrightarrow> step w s e = set_promptInput_value t s) \<and>
         (trim t \<noteq> [] \<longrightarrow>
            promptInput_value (step w s e) = [] \<and>
            messages (step w s e) =
              messages s @ [\<lparr>className = lit ''msg user'', textContent = trim v\<rparr>] \<and>
            log (step w s e) =
              log s @
              [SetInputValue t,
               AppendChild \<lparr>className = lit ''msg user'', textContent = trim v\<rparr>,
               ScrollToBottom,
               SetInputValue [],
               Fetch (next_fetch s) (askServer_request (trim v))]) \<and>
         messages (step w s e) = messages (step w (step w s (UserTypes t)) click) \<and>
         filter is_fetch (log (step w s e)) =
           filter is_fetch (log (step w (step w s (UserTypes t)) click)) \<and>
         awaiting (step w s e) = awaiting (step w (step w s (UserTypes t)) click)"
proof -
  obtain r where r: "recognition s = Some r"
    using assms(1,2) by (simp add: run_wiring main_recognition)
  have h: "onresult r = Some OnresultArrow"
    using main_recognition_handlers [of w p es r] r assms(2) by simp
  have l: "listeners s = listeners (main w p)"
    using assms(2) by (simp add: run_wiring)
  let ?s1 = "set_promptInput_value t s"
  let ?s2 = "s\<lparr>promptInput_value := v\<rparr>"
  have l1: "listeners ?s1 = listeners (main w p)"
    using l by (simp add: set_promptInput_value_def)
  have l2: "listeners ?s2 = listeners (main w p)"
    using l by simp
  have 1: "step w s e = snd (handleSend ?s1)"
    by (simp add: assms(3) r h settle_handleSend)
  have 2: "step w ?s1 click = snd (handleSend ?s1)"
    unfolding assms(4) by (rule step_click [OF l1])
  have u: "step w s (UserTypes t) = ?s2"
    by (simp add: assms(5))
  have 3: "step w (step w s (UserTypes t)) click = snd (handleSend ?s2)"
    unfolding u assms(4) by (rule step_click [OF l2])
  have v1: "promptInput_value ?s1 = v" "messages ?s1 = messages s"
    "log ?s1 = log s @ [SetInputValue t]" "next_fetch ?s1 = next_fetch s"
    "awaiting ?s1 = awaiting s"
    by (simp_all add: set_promptInput_value_def assms(5))
  have c1: "step w s e = settle (handleSend ?s1)"
    by (simp add: 1 settle_handleSend)
  have c2: "step w s e = step w ?s1 click"
    by (simp add: 1 2)
  have c3: "0x000A \<notin> set t \<and> 0x000D \<notin> set t \<longrightarrow> v = t"
    by (simp add: assms(5) value_sanitization_single_line)
  have c4: "trim v = [] \<longleftrightarrow> trim t = []"
    by (simp add: assms(5) trim_value_sanitization_empty)
  show ?thesis
  proof (cases "trim t = []")
    case True
    with c4 have b: "trim v = []" by simp
    then have b1: "trim (promptInput_value ?s1) = []"
      and b2: "trim (promptInput_value ?s2) = []"
      by (simp_all add: v1)
    have e1: "step w s e = ?s1"
      by (simp add: 1 handleSend_blank [OF b1])
    have e2: "step w (step w s (UserTypes t)) click = ?s2"
      unfolding 3 by (simp add: handleSend_blank [OF b2])
    have c6: "messages (step w s e) = messages (step w (step w s (UserTypes t)) click) \<and>
         filter is_fetch (log (step w s e)) =
           filter is_fetch (log (step w (step w s (UserTypes t)) click)) \<and>
         awaiting (step w s e) = awaiting (step w (step w s (UserTypes t)) click)"
      unfolding e1 e2 by (simp add: v1)
    from True c1 c2 v1(1) c3 c4 e1 c6 show ?thesis
      by (intro conjI) (simp_all only: simp_thms)
  next
    case False
    with c4 have b: "trim v \<noteq> []" by simp
    then have b1: "trim (promptInput_value ?s1) \<noteq> []"
      and b2: "trim (promptInput_value ?s2) \<noteq> []"
      by (simp_all add: v1)
    have c5: "promptInput_value (step w s e) = [] \<and>
            messages (step w s e) =
              messages s @ [\<lparr>className = lit ''msg user'', textContent = trim v\<rparr>] \<and>
            log (step w s e) =
              log s @
              [SetInputValue t,
               AppendChild \<lparr>className = lit ''msg user'', textContent = trim v\<rparr>,
               ScrollToBottom,
               SetInputValue [],
               Fetch (next_fetch s) (askServer_request (trim v))]"
      by (simp add: 1 handleSend_proceeds [OF b1] v1)
    have c6: "messages (step w s e) = messages (step w (step w s (UserTypes t)) click) \<and>
         filter is_fetch (log (step w s e)) =
           filter is_fetch (log (step w (step w s (UserTypes t)) click)) \<and>
         awaiting (step w s e) = awaiting (step w (step w s (UserTypes t)) click)"
      unfolding 1 3
      by (simp add: handleSend_proceeds [OF b1] handleSend_proceeds [OF b2] v1)
    from False c1 c2 v1(1) c3 c4 c5 c6 show ?thesis
      by (intro conjI) (simp_all only: simp_thms)
  qed
qed

lemma example_kind: "promptInput_kind (main example_window example_page) = TextInput"
  by (simp add: main_def example_window_def example_page_def addEventListener_def Let_def)

theorem recognition_result_submits_witness:
  "(webkitSpeechRecognition_in_window example_window \<or>
    SpeechRecognition_in_window example_window) \<and>
   value_sanitization (promptInput_kind (main example_window example_page))
     (lit '' line one'' @ [0x000A] @ lit ''line two '') = lit '' line oneline two '' \<and>
   trim (lit '' line one'' @ [0x000A] @ lit ''line two '') \<noteq> [] \<and>
   messages (step example_window (run example_window (main example_window example_page) [])
               (SpeechResult [[lit '' line one'' @ [0x000A] @ lit ''line two '']])) =
     [\<lparr>className = lit ''msg user'', textContent = lit ''line oneline two''\<rparr>] \<and>
   log (step example_window (run example_window (main example_window example_page) [])
          (SpeechResult [[lit '' line one'' @ [0x000A] @ lit ''line two '']])) =
     [SetInputValue (lit '' line one'' @ [0x000A] @ lit ''line two ''),
      AppendChild \<lparr>className = lit ''msg user'', textContent = lit ''line oneline two''\<rparr>,
      ScrollToBottom,
      SetInputValue [],
      Fetch 0 (askServer_request (lit ''line oneline two''))] \<and>
   messages (step example_window (run example_window (main example_window example_page) [])
               (SpeechResult [[lit '' what time is it '']])) =
     [\<lparr>className = lit ''msg user'', textContent = lit ''what time is it''\<rparr>] \<and>
   messages (step example_window (run example_window (main example_window padded_page) [])
               (SpeechResult [[lit ''one'' @ [0x000D, 0x000A] @ lit ''two'' @ [0x000D]]])) =
     [\<lparr>className = lit ''msg user'',
       textContent = lit ''one'' @ [0x000A] @ lit ''two''\<rparr>]"
proof -
  have h: "webkitSpeechRecognition_in_window example_window \<or>
           SpeechRecognition_in_window example_window"
    by (simp add: example_window_def)
  have r: "run example_window (main example_window example_page) [] =
           main example_window example_page"
    by (simp add: run_def)
  have v: "value_sanitization (promptInput_kind (main example_window example_page))
     (lit '' line one'' @ [0x000A] @ lit ''line two '') = lit '' line oneline two ''"
    by (simp add: example_kind lit_def)
  have t: "trim (lit '' line oneline two '') = lit ''line oneline two''"
    by (simp add: trim_def lit_def isWhiteSpace_def)
  have n: "trim (lit '' line one'' @ [0x000A] @ lit ''line two '') \<noteq> []"
    by (simp add: trim_def lit_def isWhiteSpace_def)
  have v2: "value_sanitization (promptInput_kind (main example_window example_page))
     (lit '' what time is it '') = lit '' what time is it ''"
    by (simp add: example_kind lit_def)
  have t2: "trim (lit '' what time is it '') = lit ''what time is it''"
    by (simp add: trim_def lit_def isWhiteSpace_def)
  have n2: "lit ''what time is it'' \<noteq> []"
    by (simp add: lit_def)
  note c = recognition_result_submits [OF h refl refl refl refl,
        of example_page "[]" "lit '' line one'' @ [0x000A] @ lit ''line two ''" "[]" "[]" None]
  note d = recognition_result_submits [OF h refl refl refl refl,
        of example_page "[]" "lit '' what time is it ''" "[]" "[]" None]
  note c7 = c [THEN conjunct2, THEN conjunct2, THEN conjunct2, THEN conjunct2,
               THEN conjunct2, THEN conjunct2, THEN conjunct1, THEN mp, OF n]
  have n3: "trim (lit '' what time is it '') \<noteq> []"
    by (simp add: t2 n2)
  note d7 = d [THEN conjunct2, THEN conjunct2, THEN conjunct2, THEN conjunct2,
               THEN conjunct2, THEN conjunct2, THEN conjunct1, THEN mp, OF n3]
  have m1: "messages (step example_window (run example_window (main example_window example_page) [])
               (SpeechResult [[lit '' line one'' @ [0x000A] @ lit ''line two '']])) =
     [\<lparr>className = lit ''msg user'', textContent = lit ''line oneline two''\<rparr>]"
    using c7 [THEN conjunct2, THEN conjunct1]
    by (simp only: r v t example_messages append_Nil)
  have l1: "log (step example_window (run example_window (main example_window example_page) [])
          (SpeechResult [[lit '' line one'' @ [0x000A] @ lit ''line two '']])) =
     [SetInputValue (lit '' line one'' @ [0x000A] @ lit ''line two ''),
      AppendChild \<lparr>className = lit ''msg user'', textContent = lit ''line oneline two''\<rparr>,
      ScrollToBottom,
      SetInputValue [],
      Fetch 0 (askServer_request (lit ''line oneline two''))]"
    using c7 [THEN conjunct2, THEN conjunct2]
    by (simp only: r v t example_log example_next_fetch append_Nil)
  have m2: "messages (step example_window (run example_window (main example_window example_page) [])
               (SpeechResult [[lit '' what time is it '']])) =
     [\<lparr>className = lit ''msg user'', textContent = lit ''what time is it''\<rparr>]"
    using d7 [THEN conjunct2, THEN conjunct1]
    by (simp only: r v2 t2 example_messages append_Nil)
  have r3: "run example_window (main example_window padded_page) [] =
           main example_window padded_page"
    by (simp add: run_def)
  have k3: "promptInput_kind (main example_window padded_page) = TextArea"
    by (simp add: main_def example_window_def example_page_def padded_page_def
        addEventListener_def Let_def)
  have v3: "value_sanitization (promptInput_kind (main example_window padded_page))
     (lit ''one'' @ [0x000D, 0x000A] @ lit ''two'' @ [0x000D]) =
     lit ''one'' @ [0x000A] @ lit ''two'' @ [0x000A]"
    by (simp add: k3 lit_def)
  have t3: "trim (lit ''one'' @ [0x000A] @ lit ''two'' @ [0x000A]) =
            lit ''one'' @ [0x000A] @ lit ''two''"
    by (simp add: trim_def lit_def isWhiteSpace_def)
  have n3': "trim (lit ''one'' @ [0x000D, 0x000A] @ lit ''two'' @ [0x000D]) \<noteq> []"
    by (simp add: trim_def lit_def isWhiteSpace_def)
  note f = recognition_result_submits [OF h refl refl refl refl,
        of padded_page "[]" "lit ''one'' @ [0x000D, 0x000A] @ lit ''two'' @ [0x000D]"
           "[]" "[]" None]
  note f7 = f [THEN conjunct2, THEN conjunct2, THEN conjunct2, THEN conjunct2,
               THEN conjunct2, THEN conjunct2, THEN conjunct1, THEN mp, OF n3']
  have m3: "messages (step example_window
               (run example_window (main example_window padded_page) [])
               (SpeechResult [[lit ''one'' @ [0x000D, 0x000A] @ lit ''two'' @ [0x000D]]])) =
     [\<lparr>className = lit ''msg user'',
       textContent = lit ''one'' @ [0x000A] @ lit ''two''\<rparr>]"
    using f7 [THEN conjunct2, THEN conjunct1]
    by (simp only: r3 v3 t3 padded_start append_Nil)
  from h v n m1 l1 m2 m3 show ?thesis
    by (intro conjI)
qed

end
